theory Spec2Isabelle
  imports Main "HOL-Library.Char_ord" "HOL-Library.List_Lexorder"
begin

section \<open>Python values used by \<open>generate_dataset\<close>\<close>

text \<open>
  The development embeds \<open>generate_dataset\<close> and \<open>DCThread.run\<close> of
  \<open>src/dataset_creator/DCThread.py\<close>. Python strings are \<open>string\<close>, Python integers
  are \<open>int\<close>, a Python \<open>dict\<close> is an association list in insertion order with
  pairwise distinct keys, and every exception that the code can raise is a value.
\<close>

datatype py_error = ValueError | KeyError | IndexError | ZeroDivisionError | AttributeError

subsection \<open>Strings\<close>

text \<open>\<open>sep.join(xs)\<close>.\<close>

fun py_join :: "string \<Rightarrow> string list \<Rightarrow> string" where
  "py_join sep [] = []"
| "py_join sep [x] = x"
| "py_join sep (x # y # ys) = x @ sep @ py_join sep (y # ys)"

text \<open>\<open>s.split(d)\<close> for a one-character separator: never an empty list.\<close>

fun py_split :: "char \<Rightarrow> string \<Rightarrow> string list" where
  "py_split d [] = [ [] ]"
| "py_split d (c # cs) =
     (if c = d then [] # py_split d cs
      else (case py_split d cs of [] \<Rightarrow> [ [c] ] | w # ws \<Rightarrow> (c # w) # ws))"

text \<open>\<open>s.rsplit(d, 1)\<close>: one element when \<open>d\<close> does not occur, two otherwise.\<close>

definition py_rsplit1 :: "char \<Rightarrow> string \<Rightarrow> string list" where
  "py_rsplit1 d s =
     (if d \<in> set s
      then [rev (tl (dropWhile (\<lambda>c. c \<noteq> d) (rev s))), rev (takeWhile (\<lambda>c. c \<noteq> d) (rev s))]
      else [s])"

text \<open>
  \<open>s.strip()\<close> removes the characters for which \<open>str.isspace\<close> holds; on the
  first 256 code points these are 9 to 13, 28 to 32, 133 and 160.
\<close>

definition py_isspace :: "char \<Rightarrow> bool" where
  "py_isspace c = (of_char c \<in> set [9, 10, 11, 12, 13, 28, 29, 30, 31, 32, 133, 160 :: nat])"

definition py_strip_chars :: "(char \<Rightarrow> bool) \<Rightarrow> string \<Rightarrow> string" where
  "py_strip_chars p s = rev (dropWhile p (rev (dropWhile p s)))"

definition py_strip :: "string \<Rightarrow> string" where
  "py_strip s = py_strip_chars py_isspace s"

text \<open>\<open>t in wt\<close> on strings: \<open>t\<close> occurs in \<open>wt\<close> as a contiguous piece.\<close>

definition is_prefix :: "string \<Rightarrow> string \<Rightarrow> bool" where
  "is_prefix t s = (take (length t) s = t)"

fun py_in :: "string \<Rightarrow> string \<Rightarrow> bool" where
  "py_in t [] = (t = [])"
| "py_in t (c # cs) = (is_prefix t (c # cs) \<or> py_in t cs)"

text \<open>
  The position that a Python index names in a list of \<open>len\<close> elements: negative
  indices count from the end, and an index outside \<open>-len .. len - 1\<close> names none.
\<close>

definition py_position :: "nat \<Rightarrow> int \<Rightarrow> nat option" where
  "py_position len i =
     (if 0 \<le> i \<and> i < int len then Some (nat i)
      else if i < 0 \<and> - int len \<le> i then Some (nat (int len + i))
      else None)"

text \<open>\<open>xs[i]\<close> and \<open>xs[i] = v\<close>; both raise \<open>IndexError\<close> outside the list.\<close>

definition py_index :: "'a list \<Rightarrow> int \<Rightarrow> py_error + 'a" where
  "py_index xs i =
     (case py_position (length xs) i of None \<Rightarrow> Inl IndexError | Some k \<Rightarrow> Inr (xs ! k))"

definition py_set :: "'a list \<Rightarrow> int \<Rightarrow> 'a \<Rightarrow> py_error + 'a list" where
  "py_set xs i v =
     (case py_position (length xs) i of None \<Rightarrow> Inl IndexError | Some k \<Rightarrow> Inr (xs[k := v]))"

text \<open>\<open>xs.index(x)\<close>: the first position of \<open>x\<close>.\<close>

fun list_index :: "'a list \<Rightarrow> 'a \<Rightarrow> py_error + nat" where
  "list_index [] x = Inl ValueError"
| "list_index (y # ys) x =
     (if y = x then Inr 0
      else (case list_index ys x of Inl e \<Rightarrow> Inl e | Inr n \<Rightarrow> Inr (Suc n)))"

text \<open>\<open>xs.remove(x)\<close>: drops the first occurrence of \<open>x\<close>.\<close>

fun list_remove :: "'a list \<Rightarrow> 'a \<Rightarrow> py_error + 'a list" where
  "list_remove [] x = Inl ValueError"
| "list_remove (y # ys) x =
     (if y = x then Inr ys
      else (case list_remove ys x of Inl e \<Rightarrow> Inl e | Inr zs \<Rightarrow> Inr (y # zs)))"

subsection \<open>Dictionaries\<close>

type_synonym ('k, 'v) dict = "('k \<times> 'v) list"

text \<open>\<open>d[k] = v\<close>: an existing key keeps its position, a new key goes last.\<close>

fun setitem :: "('k, 'v) dict \<Rightarrow> 'k \<Rightarrow> 'v \<Rightarrow> ('k, 'v) dict" where
  "setitem [] k v = [(k, v)]"
| "setitem ((k', v') # d) k v =
     (if k' = k then (k', v) # d else (k', v') # setitem d k v)"

text \<open>\<open>d[k]\<close>: raises \<open>KeyError\<close> on a missing key.\<close>

definition getitem :: "('k, 'v) dict \<Rightarrow> 'k \<Rightarrow> py_error + 'v" where
  "getitem d k = (case map_of d k of None \<Rightarrow> Inl KeyError | Some v \<Rightarrow> Inr v)"

definition keys :: "('k, 'v) dict \<Rightarrow> 'k list" where
  "keys d = map fst d"

definition dict_values :: "('k, 'v) dict \<Rightarrow> 'v list" where
  "dict_values d = map snd d"

text \<open>\<open>{**a, **b}\<close>: the items of \<open>a\<close>, then those of \<open>b\<close> stored one by one.\<close>

definition dict_merge :: "('k, 'v) dict \<Rightarrow> ('k, 'v) dict \<Rightarrow> ('k, 'v) dict" where
  "dict_merge a b = fold (\<lambda>(k, v) d. setitem d k v) b a"

text \<open>\<open>Counter(xs)\<close>: the keys in first-seen order with their multiplicities.\<close>

definition Counter :: "string list \<Rightarrow> (string, int) dict" where
  "Counter xs =
     fold (\<lambda>x d. setitem d x (case map_of d x of None \<Rightarrow> 1 | Some n \<Rightarrow> n + 1)) xs []"

section \<open>Outcomes, the log and the stop flag\<close>

text \<open>
  A call of \<open>generate_dataset\<close> raises, returns \<open>None\<close> after it saw the stop flag set,
  or returns a value.
\<close>

datatype 'a outcome = Raised py_error | Cancelled | Returned 'a

text \<open>
  The messages given to the logger, by level and place; the formatted text of a
  message is kept as its arguments.
\<close>

datatype var_value = Single string | Multi "string list"

datatype log_event =
    InfoStarting
  | ErrorEmptyCorpus
  | InfoSpeakersOfInterest "string list"
  | InfoSpeakersFound "string list"
  | WarningNotInList "string list"
  | WarningDuplicates "(string \<times> var_value) list"
  | InfoStopped
  | ErrorAnnotations string
  | InfoUniqueAnnotations nat
  | InfoCoverage int nat int int
  | InfoMainLoop
  | WarningUnknownHeader
  | WarningUnknown nat string
  | WarningSkipInvalid string
  | WarningSkipWrong string

text \<open>
  The state a run threads through: how often \<open>stop_flag.is_set()\<close> has been asked,
  and the messages logged so far. The flag is set by another thread, so what the
  \<open>k\<close>-th question answers is a parameter \<open>stop k\<close> of the run.
\<close>

record run_state =
  polls :: nat
  log :: "log_event list"

type_synonym 'a run = "run_state \<Rightarrow> 'a outcome \<times> run_state"

definition ret :: "'a \<Rightarrow> 'a run" where
  "ret a = (\<lambda>s. (Returned a, s))"

definition raise :: "py_error \<Rightarrow> 'a run" where
  "raise e = (\<lambda>s. (Raised e, s))"

definition lift :: "py_error + 'a \<Rightarrow> 'a run" where
  "lift r = (case r of Inl e \<Rightarrow> raise e | Inr a \<Rightarrow> ret a)"

definition bind :: "'a run \<Rightarrow> ('a \<Rightarrow> 'b run) \<Rightarrow> 'b run" where
  "bind m f =
     (\<lambda>s. case m s of
            (Returned a, s') \<Rightarrow> f a s'
          | (Raised e, s') \<Rightarrow> (Raised e, s')
          | (Cancelled, s') \<Rightarrow> (Cancelled, s'))"

definition emit :: "log_event \<Rightarrow> unit run" where
  "emit ev = (\<lambda>s. (Returned (), s\<lparr>log := log s @ [ev]\<rparr>))"

text \<open>
  \<open>if stop_flag.is_set(): logger.info("Dataset generation stopped."); return None\<close>
\<close>

definition checkpoint :: "(nat \<Rightarrow> bool) \<Rightarrow> unit run" where
  "checkpoint stop =
     (\<lambda>s. if stop (polls s)
          then (Cancelled, s\<lparr>polls := Suc (polls s), log := log s @ [InfoStopped]\<rparr>)
          else (Returned (), s\<lparr>polls := Suc (polls s)\<rparr>))"

text \<open>
  Modelled from the spec: the logger class \<open>QTextLogger\<close> is not among the sources. The
  spec describes it as a collaborator with leveled message emission (info, warning,
  error) and a progress sink, so these are the attributes a call can name; naming any
  other attribute raises \<open>AttributeError\<close>.
\<close>

definition logger_attributes :: "string list" where
  "logger_attributes = [''info'', ''warning'', ''error'', ''text_edit_stream'']"

definition logger_call :: "string \<Rightarrow> log_event \<Rightarrow> unit run" where
  "logger_call name ev = (if name \<in> set logger_attributes then emit ev else raise AttributeError)"

text \<open>
  A \<open>for\<close> loop over a list whose body updates the loop's variables \<open>acc\<close>:
  \<open>continue\<close> is a body that returns them unchanged; a raise or a \<open>return None\<close>
  of the body ends the loop.
\<close>

fun for_loop :: "('a \<Rightarrow> 'b \<Rightarrow> 'b run) \<Rightarrow> 'a list \<Rightarrow> 'b \<Rightarrow> 'b run" where
  "for_loop body [] acc s = (Returned acc, s)"
| "for_loop body (x # xs) acc s =
     (case body x acc s of
        (Returned acc', s') \<Rightarrow> for_loop body xs acc' s'
      | (Raised e, s') \<Rightarrow> (Raised e, s')
      | (Cancelled, s') \<Rightarrow> (Cancelled, s'))"

text \<open>The same for a loop without logging and stop checks, whose body may raise.\<close>

definition sbind :: "py_error + 'a \<Rightarrow> ('a \<Rightarrow> py_error + 'b) \<Rightarrow> py_error + 'b" where
  "sbind r f = (case r of Inl e \<Rightarrow> Inl e | Inr a \<Rightarrow> f a)"

fun for_pure :: "('a \<Rightarrow> 'b \<Rightarrow> py_error + 'b) \<Rightarrow> 'a list \<Rightarrow> 'b \<Rightarrow> py_error + 'b" where
  "for_pure body [] acc = Inr acc"
| "for_pure body (x # xs) acc =
     (case body x acc of Inl e \<Rightarrow> Inl e | Inr acc' \<Rightarrow> for_pure body xs acc')"

text \<open>\<open>str(n)\<close> for a natural number.\<close>

fun str_nat :: "nat \<Rightarrow> string" where
  "str_nat n =
     (if n < 10 then [char_of (48 + n)]
      else str_nat (n div 10) @ [char_of (48 + n mod 10)])"

section \<open>Inputs and collaborators\<close>

text \<open>
  The functions that \<open>DCThread.py\<close> imports from \<open>src.dataset_creator.dc_utils\<close> are
  not among the sources, and the three regular expressions are the caller's. They are
  parameters of the model: \<open>finditer\<close> is \<open>feat_regex.finditer\<close>, giving for each
  match its start, its group 0 and its group 1; the other fields are the imported
  functions with the compiled patterns and the logger fixed.
\<close>

record env =
  preprocess_corpus :: "string \<Rightarrow> string \<Rightarrow> string list"
  get_name :: "string \<Rightarrow> string"
  finditer :: "string \<Rightarrow> (nat \<times> string \<times> string) list"
  check_correct_annotations ::
    "(nat \<times> string \<times> string) list \<Rightarrow> string \<Rightarrow> string \<Rightarrow> string list \<times> string"
  find_repetitions :: "string \<Rightarrow> string \<Rightarrow> string list \<Rightarrow> bool \<Rightarrow> int \<times> int \<times> int \<times> string list"
  remove_features :: "string \<Rightarrow> string \<times> string list"
  get_ngram :: "string \<Rightarrow> int \<times> int \<Rightarrow> nat \<Rightarrow> string"

text \<open>The options of \<open>inputs\<close> that are not patterns.\<close>

record options =
  previous_line :: bool
  ngram_prev :: int
  ngram_next :: int

datatype cell = Str string | Num int | Flag bool | NoValue

text \<open>A \<open>pandas.DataFrame\<close>: its column labels and its rows.\<close>

record 'a table =
  columns :: "string list"
  data :: "'a list list"

type_synonym counter = "(string, (string, int) dict) dict"

section \<open>\<open>generate_dataset\<close>, stage by stage\<close>

subsection \<open>Lines 41 to 129: corpus, speakers, variables, header\<close>

definition preprocess_all :: "env \<Rightarrow> (string, string) dict \<Rightarrow> (string, string list) dict" where
  "preprocess_all E corpus_dict = map (\<lambda>(k, v). (k, preprocess_corpus E v k)) corpus_dict"

definition speakers_of_interest :: "(string, string list) dict \<Rightarrow> string list" where
  "speakers_of_interest speakers_variables = map py_strip (keys speakers_variables)"

text \<open>A Python \<open>set\<close> of strings is the list of its elements without repetition.\<close>

definition all_speakers_dict :: "env \<Rightarrow> (string, string list) dict \<Rightarrow> (string, string list) dict" where
  "all_speakers_dict E corpus_dict =
     map (\<lambda>(k, v). (k, sort v))
       (filter (\<lambda>(k, v). length v > 0)
          (map (\<lambda>(k, v). (k, remdups (map (get_name E) v))) corpus_dict))"

definition duplicate_warning ::
  "(string, var_value) dict \<Rightarrow> (string, var_value) dict \<Rightarrow> log_event list" where
  "duplicate_warning independent_variables dependent_variables =
     (let variable_dict = dict_merge independent_variables dependent_variables
      in if length variable_dict \<noteq> length independent_variables + length dependent_variables
         then [WarningDuplicates
                 (filter (\<lambda>(token, v). token \<in> set (keys independent_variables)
                                      \<and> token \<in> set (keys dependent_variables))
                    variable_dict)]
         else [])"

text \<open>The inverse index \<open>idv\<close>: every value of every variable, stored under that value.\<close>

definition idv_step :: "string \<times> var_value \<Rightarrow> (string, string) dict \<Rightarrow> (string, string) dict" where
  "idv_step = (\<lambda>(token, v) idv.
     (case v of
        Multi vs \<Rightarrow> fold (\<lambda>i idv'. setitem idv' i token) vs idv
      | Single x \<Rightarrow> setitem idv x token))"

definition inverse_index :: "(string, var_value) dict \<Rightarrow> (string, string) dict" where
  "inverse_index variable_dict = fold idv_step variable_dict []"

definition csv_end :: "bool \<Rightarrow> string list" where
  "csv_end pl =
     (if pl then [''previous line''] else [])
       @ [''speaker'', ''interlocutor/s'', ''file'', ''context'', ''unk'']"

definition csv_header_of ::
  "(string, var_value) dict \<Rightarrow> (string, var_value) dict \<Rightarrow> bool \<Rightarrow> string list" where
  "csv_header_of independent_variables dependent_variables pl =
     [''token''] @ (sort (keys dependent_variables) @ sort (keys independent_variables))
       @ csv_end pl"

definition emit_all :: "log_event list \<Rightarrow> unit run" where
  "emit_all evs = (\<lambda>s. (Returned (), s\<lparr>log := log s @ evs\<rparr>))"

definition speakers_report :: "string list \<Rightarrow> string list \<Rightarrow> log_event list" where
  "speakers_report sois corpus_names =
     (let all_speakers = filter (\<lambda>x. x \<noteq> []) (remdups corpus_names);
          not_in_list = filter (\<lambda>x. x \<notin> set sois) all_speakers
      in [InfoSpeakersFound all_speakers]
           @ (if length sois > 0 \<and> length not_in_list > 0
              then [WarningNotInList not_in_list] else []))"

subsection \<open>Lines 136 to 163: the annotated tokens\<close>

definition validation_pass :: "env \<Rightarrow> (string, string list) dict \<Rightarrow> string list \<times> string" where
  "validation_pass E corpus_dict =
     fold (\<lambda>(pt, crp) (annotations, err_msg).
             (let crp' = py_join [CHR 0x0A] crp
              in case check_correct_annotations E (finditer E crp') crp' pt of
                   (anns, msg) \<Rightarrow> (annotations @ anns, err_msg @ msg @ [CHR 0x0A, CHR 0x0A])))
       corpus_dict ([], [])"

definition annotation_tokens :: "string list \<Rightarrow> string list" where
  "annotation_tokens annotations =
     map (\<lambda>x. filter (\<lambda>c. c \<noteq> CHR ''['' \<and> c \<noteq> CHR '']'') (last (py_split CHR ''.'' x)))
       annotations"

definition initial_counter :: "string list \<Rightarrow> counter" where
  "initial_counter annotations =
     map (\<lambda>(k, v). (k, [(''annotated'', v)])) (Counter (annotation_tokens annotations))"

subsection \<open>Lines 168 to 199: the whole-corpus pass and the coverage line\<close>

text \<open>\<open>annotation_counter[token][key]\<close> and \<open>annotation_counter[token][key] = v\<close>.\<close>

definition get2 :: "counter \<Rightarrow> string \<Rightarrow> string \<Rightarrow> py_error + int" where
  "get2 ac token key = sbind (getitem ac token) (\<lambda>row. getitem row key)"

definition set2 :: "counter \<Rightarrow> string \<Rightarrow> string \<Rightarrow> int \<Rightarrow> py_error + counter" where
  "set2 ac token key v =
     sbind (getitem ac token) (\<lambda>row. Inr (setitem ac token (setitem row key v)))"

definition whole_corpus_body ::
  "env \<Rightarrow> (nat \<Rightarrow> bool) \<Rightarrow> string \<Rightarrow> string list \<Rightarrow> string \<Rightarrow> counter \<Rightarrow> counter run" where
  "whole_corpus_body E stop whole_corpus sois token ac =
     (case find_repetitions E whole_corpus token sois True of
        (wild_rep, wild_rep_interest, ann_rep, _) \<Rightarrow>
          bind (lift (get2 ac token ''annotated'')) (\<lambda>annotated.
          bind (lift (set2 ac token ''not annotated'' (wild_rep + ann_rep - annotated))) (\<lambda>ac1.
          bind (lift (set2 ac1 token ''not_annotated_interest'' wild_rep_interest)) (\<lambda>ac2.
          bind (checkpoint stop) (\<lambda>_. ret ac2)))))"

definition whole_corpus_pass ::
  "env \<Rightarrow> (nat \<Rightarrow> bool) \<Rightarrow> string \<Rightarrow> string list \<Rightarrow> counter \<Rightarrow> counter run" where
  "whole_corpus_pass E stop whole_corpus sois ac =
     for_loop (whole_corpus_body E stop whole_corpus sois) (keys ac) ac"

text \<open>\<open>sum([x[key] for x in annotation_counter.values()])\<close>.\<close>

definition sum_key :: "string \<Rightarrow> counter \<Rightarrow> py_error + int" where
  "sum_key key ac =
     for_pure (\<lambda>x total. sbind (getitem x key) (\<lambda>v. Inr (total + v))) (dict_values ac) 0"

text \<open>
  The coverage message divides \<open>annotated\<close> by the number of pieces of
  \<open>whole_corpus.split(' ')\<close>, which is never zero, and then \<open>not_annotated_interest\<close>
  by \<open>not_annotated\<close>; the percentages themselves are floating-point text and are
  kept as the four numbers they are formed from.
\<close>

definition coverage_report :: "counter \<Rightarrow> string \<Rightarrow> unit run" where
  "coverage_report ac whole_corpus =
     bind (lift (sum_key ''annotated'' ac)) (\<lambda>annotated.
     bind (lift (sum_key ''not annotated'' ac)) (\<lambda>not_annotated.
     bind (lift (sum_key ''not_annotated_interest'' ac)) (\<lambda>not_annotated_interest.
       if not_annotated = 0 then raise ZeroDivisionError
       else emit (InfoCoverage annotated (length (py_split CHR '' '' whole_corpus))
                    not_annotated not_annotated_interest))))"

subsection \<open>Lines 205 to 237: the per-file pass\<close>

type_synonym na_log = "(string, (string, string list) dict) dict"

definition log_snippets :: "na_log \<Rightarrow> string \<Rightarrow> string \<Rightarrow> string list \<Rightarrow> py_error + na_log" where
  "log_snippets nal path token wna =
     sbind (getitem nal path) (\<lambda>sub.
       (let sub1 = (if token \<notin> set (keys sub) then setitem sub token [] else sub)
        in sbind (getitem sub1 token) (\<lambda>old.
             Inr (setitem nal path (setitem sub1 token (old @ wna))))))"

definition per_file_token_body ::
  "env \<Rightarrow> (nat \<Rightarrow> bool) \<Rightarrow> string \<Rightarrow> string list \<Rightarrow> string \<Rightarrow> string \<Rightarrow> na_log \<Rightarrow> na_log run" where
  "per_file_token_body E stop crp sois path token nal =
     (case find_repetitions E crp token sois False of
        (_, _, _, wna) \<Rightarrow>
          bind (lift (if length wna > 0 then log_snippets nal path token wna else Inr nal))
            (\<lambda>nal'. bind (checkpoint stop) (\<lambda>_. ret nal')))"

text \<open>Lines 214 to 217: the paragraphs of the speakers of interest, joined.\<close>

definition file_text :: "env \<Rightarrow> string list \<Rightarrow> string list \<Rightarrow> string" where
  "file_text E sois crp = py_join [CHR 0x0A] (filter (\<lambda>x. get_name E x \<in> set sois) crp)"

definition per_file_body ::
  "env \<Rightarrow> (nat \<Rightarrow> bool) \<Rightarrow> string list \<Rightarrow> string list \<Rightarrow> string \<times> string list
     \<Rightarrow> na_log \<Rightarrow> na_log run" where
  "per_file_body E stop sois tokens = (\<lambda>(path, crp) nal.
     for_loop (per_file_token_body E stop (file_text E sois crp) sois path) tokens
       (setitem nal path []))"

definition per_file_pass ::
  "env \<Rightarrow> (nat \<Rightarrow> bool) \<Rightarrow> string list \<Rightarrow> (string, string list) dict \<Rightarrow> counter \<Rightarrow> na_log run" where
  "per_file_pass E stop sois corpus_dict ac =
     for_loop (per_file_body E stop sois (keys ac)) corpus_dict []"

subsection \<open>Lines 247 to 267: the per-speaker pass\<close>

definition init_zero :: "counter \<Rightarrow> string \<Rightarrow> string \<Rightarrow> py_error + counter" where
  "init_zero ac token key =
     sbind (getitem ac token) (\<lambda>row.
       if key \<notin> set (keys row) then set2 ac token key 0 else Inr ac)"

definition per_speaker_token_body ::
  "env \<Rightarrow> (nat \<Rightarrow> bool) \<Rightarrow> string \<Rightarrow> string list \<Rightarrow> string \<Rightarrow> string \<Rightarrow> counter \<Rightarrow> counter run" where
  "per_speaker_token_body E stop sp_corpus sois sp token ac =
     (case find_repetitions E sp_corpus token sois True of
        (wild_rep, wild_rep_interest, ann_rep, _) \<Rightarrow>
          bind (lift (init_zero ac token (sp @ '' not annotated''))) (\<lambda>ac1.
          bind (lift (init_zero ac1 token (sp @ '' annotated''))) (\<lambda>ac2.
          bind (lift (set2 ac2 token (sp @ '' not annotated'') wild_rep)) (\<lambda>ac3.
          bind (lift (set2 ac3 token (sp @ '' annotated'') ann_rep)) (\<lambda>ac4.
          bind (checkpoint stop) (\<lambda>_. ret ac4))))))"

definition speaker_corpus :: "env \<Rightarrow> string list \<Rightarrow> string \<Rightarrow> string" where
  "speaker_corpus E corpus sp = py_join [CHR 0x0A] (filter (\<lambda>c. get_name E c = sp) corpus)"

definition per_speaker_body ::
  "env \<Rightarrow> (nat \<Rightarrow> bool) \<Rightarrow> string list \<Rightarrow> string list \<Rightarrow> string \<Rightarrow> counter \<Rightarrow> counter run" where
  "per_speaker_body E stop sois corpus sp ac =
     for_loop (per_speaker_token_body E stop (speaker_corpus E corpus sp) sois sp) (keys ac) ac"

definition per_speaker_pass ::
  "env \<Rightarrow> (nat \<Rightarrow> bool) \<Rightarrow> string list \<Rightarrow> string list \<Rightarrow> string list \<Rightarrow> counter \<Rightarrow> counter run" where
  "per_speaker_pass E stop sois corpus speakers ac =
     for_loop (per_speaker_body E stop sois corpus) speakers ac"

subsection \<open>Lines 270 to 281: the totals\<close>

definition total_speaker_body ::
  "(nat \<Rightarrow> bool) \<Rightarrow> string \<Rightarrow> string \<Rightarrow> counter \<Rightarrow> counter run" where
  "total_speaker_body stop token speaker ac =
     bind (lift (set2 ac token (speaker @ '' annotated'') 0)) (\<lambda>ac1.
     bind (lift (set2 ac1 token (speaker @ '' not annotated'') 0)) (\<lambda>ac2.
     bind (checkpoint stop) (\<lambda>_. ret ac2)))"

definition total_body :: "(nat \<Rightarrow> bool) \<Rightarrow> string list \<Rightarrow> string \<Rightarrow> counter \<Rightarrow> counter run" where
  "total_body stop sois token ac =
     bind (lift (get2 ac token ''annotated'')) (\<lambda>annotated.
     bind (lift (get2 ac token ''not annotated'')) (\<lambda>not_annotated.
     bind (lift (set2 ac token ''total'' (annotated + not_annotated))) (\<lambda>ac1.
       for_loop (total_speaker_body stop token) sois ac1)))"

definition total_pass :: "(nat \<Rightarrow> bool) \<Rightarrow> string list \<Rightarrow> counter \<Rightarrow> counter run" where
  "total_pass stop sois ac = for_loop (total_body stop sois) (keys ac) ac"

subsection \<open>Lines 291 to 375: the main loop\<close>

text \<open>Lines 334 to 338: the variables of the current speaker.\<close>

definition speaker_columns ::
  "string list \<Rightarrow> (string, string) dict \<Rightarrow> string list \<Rightarrow> string list \<Rightarrow> py_error + string list" where
  "speaker_columns csv_header idv cur_speaker_var csv_line =
     for_pure (\<lambda>var line.
         sbind (getitem idv var) (\<lambda>category.
         sbind (list_index csv_header category) (\<lambda>cat_idx.
           py_set line (int cat_idx) var)))
       cur_speaker_var csv_line"

text \<open>Lines 350 to 358: the features of the tag; the second component collects \<open>unk_categories\<close>.\<close>

definition feature_body ::
  "string list \<Rightarrow> (string, string) dict \<Rightarrow> string \<Rightarrow> string list \<times> string list
     \<Rightarrow> py_error + string list \<times> string list" where
  "feature_body csv_header idv f = (\<lambda>(line, unk).
     if f \<notin> set (keys idv)
     then sbind (py_index line (- 1)) (\<lambda>final.
          sbind (py_set line (- 1) (final @ f @ '','')) (\<lambda>line'.
            Inr (line', unk @ [f])))
     else sbind (getitem idv f) (\<lambda>category.
          sbind (list_index csv_header category) (\<lambda>cat_idx.
          sbind (py_set line (int cat_idx) f) (\<lambda>line'.
            Inr (line', unk)))))"

definition feature_columns ::
  "string list \<Rightarrow> (string, string) dict \<Rightarrow> string \<Rightarrow> string list
     \<Rightarrow> py_error + string list \<times> string list" where
  "feature_columns csv_header idv feats csv_line =
     for_pure (feature_body csv_header idv) (py_split CHR ''.'' feats) (csv_line, [])"

text \<open>Lines 363 to 374: the fixed columns.\<close>

definition fixed_columns ::
  "bool \<Rightarrow> string \<Rightarrow> string \<Rightarrow> string \<Rightarrow> string list \<Rightarrow> string \<Rightarrow> string \<Rightarrow> string list
     \<Rightarrow> py_error + string list" where
  "fixed_columns pl text context file_path file_speakers cur_speaker sp csv_line =
     sbind (list_remove file_speakers cur_speaker) (\<lambda>speakers.
     sbind (py_set csv_line 0 text) (\<lambda>l1.
     sbind (py_set l1 (- 2) context) (\<lambda>l2.
     sbind (py_set l2 (- 3) file_path) (\<lambda>l3.
     sbind (py_set l3 (- 4) (py_join '','' speakers)) (\<lambda>l4.
     sbind (py_set l4 (- 5) cur_speaker) (\<lambda>l5.
     sbind (if pl then py_set l5 (- 6) sp else Inr l5) (\<lambda>l6.
     sbind (py_index l6 (- 1)) (\<lambda>final.
       py_set l6 (- 1) (py_strip_chars (\<lambda>ch. ch = CHR '','') final)))))))))"

text \<open>Lines 331 to 374: the row of one tag \<open>t\<close> found at \<open>index\<close> in paragraph \<open>c\<close>.\<close>

definition build_row ::
  "env \<Rightarrow> options \<Rightarrow> string list \<Rightarrow> (string, string) dict \<Rightarrow> (string, string list) dict
     \<Rightarrow> string \<Rightarrow> string list \<Rightarrow> string \<Rightarrow> string \<Rightarrow> string \<Rightarrow> nat \<Rightarrow> string
     \<Rightarrow> py_error + string list \<times> string list" where
  "build_row E opts csv_header idv speakers_variables file_path file_speakers c cur_speaker sp
      index t =
     (let csv_line = replicate (length csv_header) [];
          cur_speaker_var =
            (case map_of speakers_variables cur_speaker of None \<Rightarrow> [] | Some vs \<Rightarrow> vs)
      in sbind (speaker_columns csv_header idv cur_speaker_var csv_line) (\<lambda>line1.
         (let feats = py_rsplit1 CHR ''.'' t
          in sbind (py_index feats 1) (\<lambda>text.
             sbind (py_index feats 0) (\<lambda>feats0.
             (let context = get_ngram E c (ngram_prev opts, ngram_next opts) index
              in sbind (feature_columns csv_header idv feats0 line1) (\<lambda>(line2, unk).
                 sbind (fixed_columns (previous_line opts) text context file_path file_speakers
                          cur_speaker sp line2) (\<lambda>line3.
                   Inr (line3, unk)))))))))"

text \<open>
  Lines 314 to 375: one match of the feature pattern. The two skips call
  \<open>logger.waring\<close>, as the source spells it.
\<close>

definition tag_body ::
  "env \<Rightarrow> options \<Rightarrow> string list \<Rightarrow> (string, string) dict \<Rightarrow> (string, string list) dict
     \<Rightarrow> string list \<Rightarrow> string \<Rightarrow> string list \<Rightarrow> string \<Rightarrow> string \<Rightarrow> string \<Rightarrow> string list
     \<Rightarrow> nat \<times> string \<times> string \<Rightarrow> string list list \<times> string list
     \<Rightarrow> (string list list \<times> string list) run" where
  "tag_body E opts csv_header idv speakers_variables tokens file_path file_speakers c
      cur_speaker sp wrong_tags = (\<lambda>(index, org_t, t) (csv_file, unk_categories).
     if last (py_split CHR ''.'' t) \<notin> set tokens
     then bind (logger_call ''waring'' (WarningSkipInvalid t))
            (\<lambda>_. ret (csv_file, unk_categories))
     else if list_ex (\<lambda>wt. py_in t wt) wrong_tags
     then bind (logger_call ''waring'' (WarningSkipWrong t))
            (\<lambda>_. ret (csv_file, unk_categories))
     else bind (lift (build_row E opts csv_header idv speakers_variables file_path
                        file_speakers c cur_speaker sp index t))
            (\<lambda>(csv_line, unk). ret (csv_file @ [csv_line], unk_categories @ unk)))"

definition paragraph_body ::
  "env \<Rightarrow> options \<Rightarrow> (nat \<Rightarrow> bool) \<Rightarrow> string list \<Rightarrow> (string, string) dict
     \<Rightarrow> (string, string list) dict \<Rightarrow> string list \<Rightarrow> string list \<Rightarrow> string \<Rightarrow> string list
     \<Rightarrow> string list \<Rightarrow> nat \<Rightarrow> string list list \<times> string list
     \<Rightarrow> (string list list \<times> string list) run" where
  "paragraph_body E opts stop csv_header idv speakers_variables tokens sois file_path
      file_speakers corpus idx acc =
     bind (checkpoint stop) (\<lambda>_.
     bind (lift (py_index corpus (int idx))) (\<lambda>c.
       (let cur_speaker = get_name E c
        in if cur_speaker \<in> set sois
           then bind (lift (py_index corpus (int idx - 1))) (\<lambda>sp.
                  (case remove_features E c of
                     (clean_p, wrong_tags) \<Rightarrow>
                       for_loop (tag_body E opts csv_header idv speakers_variables tokens
                                   file_path file_speakers c cur_speaker sp wrong_tags)
                         (finditer E c) acc))
           else ret acc)))"

definition file_body ::
  "env \<Rightarrow> options \<Rightarrow> (nat \<Rightarrow> bool) \<Rightarrow> string list \<Rightarrow> (string, string) dict
     \<Rightarrow> (string, string list) dict \<Rightarrow> string list \<Rightarrow> string list \<Rightarrow> (string, string list) dict
     \<Rightarrow> string \<times> string list \<Rightarrow> string list list \<times> string list
     \<Rightarrow> (string list list \<times> string list) run" where
  "file_body E opts stop csv_header idv speakers_variables tokens sois speakers_dict =
     (\<lambda>(file_path, corpus) acc.
        bind (lift (getitem speakers_dict file_path)) (\<lambda>file_speakers.
          for_loop (paragraph_body E opts stop csv_header idv speakers_variables tokens sois
                      file_path file_speakers corpus)
            [0..<length corpus] acc))"

definition main_loop ::
  "env \<Rightarrow> options \<Rightarrow> (nat \<Rightarrow> bool) \<Rightarrow> string list \<Rightarrow> (string, string) dict
     \<Rightarrow> (string, string list) dict \<Rightarrow> string list \<Rightarrow> string list \<Rightarrow> (string, string list) dict
     \<Rightarrow> (string, string list) dict \<Rightarrow> (string list list \<times> string list) run" where
  "main_loop E opts stop csv_header idv speakers_variables tokens sois speakers_dict corpus_dict =
     for_loop (file_body E opts stop csv_header idv speakers_variables tokens sois speakers_dict)
       corpus_dict ([], [])"

subsection \<open>Lines 381 to 430: the four tables\<close>

text \<open>
  \<open>pd.DataFrame(data=rows, columns=cols)\<close> on a list of rows: short rows are filled
  with missing values up to the longest row, whose length must be the number of
  column labels; no rows at all give an empty table with the labels.
\<close>

definition data_frame :: "'a \<Rightarrow> 'a list list \<Rightarrow> string list \<Rightarrow> py_error + 'a table" where
  "data_frame missing rows cols =
     (if rows = [] then Inr \<lparr>columns = cols, data = []\<rparr>
      else (let w = fold max (map length rows) 0
            in if w \<noteq> length cols then Inl ValueError
               else Inr \<lparr>columns = cols,
                         data = map (\<lambda>r. r @ replicate (w - length r) missing) rows\<rparr>))"

text \<open>Lines 381 to 384: the header and the rows of the annotation statistics.\<close>

definition annotation_info_rows :: "counter \<Rightarrow> py_error + string list \<times> cell list list" where
  "annotation_info_rows ac =
     (case dict_values ac of
        [] \<Rightarrow> Inl IndexError
      | v # _ \<Rightarrow>
          Inr ([''token''] @ keys v,
               map (\<lambda>(token, v). [Str token] @ map Num (dict_values v)) ac))"

text \<open>\<open>max(xs)\<close> raises \<open>ValueError\<close> on an empty list.\<close>

definition py_max :: "nat list \<Rightarrow> py_error + nat" where
  "py_max xs = (case xs of [] \<Rightarrow> Inl ValueError | x # ys \<Rightarrow> Inr (fold max ys x))"

text \<open>Lines 387 to 401: the list \<open>missing_annotations\<close>, header first.\<close>

definition missing_annotations_of :: "na_log \<Rightarrow> py_error + string list list" where
  "missing_annotations_of nal =
     (if length nal > 0
      then sbind (py_max (concat (map (\<lambda>sub. map length (dict_values sub)) (dict_values nal))))
             (\<lambda>max_lens.
                Inr ([ [''file'', ''token'']
                        @ map (\<lambda>i. ''context '' @ str_nat i) [1..<max_lens + 1] ]
                     @ concat (map (\<lambda>(path, vals).
                                      map (\<lambda>(token, context). [path, token] @ context) vals)
                                 nal)))
      else Inr [])"

text \<open>\<open>xs[0]\<close> and \<open>xs[1:]\<close>.\<close>

definition head_and_rest :: "'a list \<Rightarrow> py_error + 'a \<times> 'a list" where
  "head_and_rest xs = (case xs of [] \<Rightarrow> Inl IndexError | x # ys \<Rightarrow> Inr (x, ys))"

text \<open>
  Lines 408 to 419. The pandas operations are those on a table with pairwise
  distinct column labels: \<open>df[label]\<close> is one column, \<open>drop\<close> raises \<open>KeyError\<close> on
  a label that is not there, \<open>get_dummies\<close> replaces every column by one indicator
  column per value found in it, in sorted order, named \<open>column:value\<close>.
\<close>

definition column :: "'a table \<Rightarrow> string \<Rightarrow> py_error + 'a list" where
  "column t name =
     (case list_index (columns t) name of
        Inl _ \<Rightarrow> Inl KeyError
      | Inr i \<Rightarrow> Inr (map (\<lambda>r. r ! i) (data t)))"

definition drop_columns :: "'a table \<Rightarrow> string list \<Rightarrow> py_error + 'a table" where
  "drop_columns t names =
     (if list_all (\<lambda>n. n \<in> set (columns t)) names
      then Inr \<lparr>columns = filter (\<lambda>c. c \<notin> set names) (columns t),
                data = map (\<lambda>r. map snd (filter (\<lambda>(c, x). c \<notin> set names) (zip (columns t) r)))
                         (data t)\<rparr>
      else Inl KeyError)"

definition get_dummies :: "string table \<Rightarrow> cell table" where
  "get_dummies t =
     (let levels = map (\<lambda>xs. sort (remdups xs)) (transpose (data t))
      in \<lparr>columns = concat (map (\<lambda>(c, ls). map (\<lambda>v. c @ '':'' @ v) ls) (zip (columns t) levels)),
          data = map (\<lambda>r. concat (map (\<lambda>(x, ls). map (\<lambda>v. Flag (x = v)) ls) (zip r levels)))
                   (data t)\<rparr>)"

text \<open>\<open>df[name] = values\<close>: replaces the column of that label, or adds it as the last one.\<close>

definition set_column :: "'a table \<Rightarrow> string \<Rightarrow> 'a list \<Rightarrow> 'a table" where
  "set_column t name vals =
     (case list_index (columns t) name of
        Inr i \<Rightarrow> \<lparr>columns = columns t, data = map (\<lambda>(r, x). r[i := x]) (zip (data t) vals)\<rparr>
      | Inl _ \<Rightarrow> \<lparr>columns = columns t @ [name],
                  data = map (\<lambda>(r, x). r @ [x]) (zip (data t) vals)\<rparr>)"

definition to_drop :: "string list" where
  "to_drop = [''context'', ''token'', ''unk'', ''file'']"

definition one_hot :: "string table \<Rightarrow> py_error + cell table" where
  "one_hot df =
     sbind (column df ''token'') (\<lambda>tokens.
     sbind (column df ''context'') (\<lambda>context.
     sbind (drop_columns df to_drop) (\<lambda>df1.
       (let df_encoded = get_dummies df1;
            df_encoded1 = set_column df_encoded ''token'' (map Str tokens)
        in Inr (set_column df_encoded1 ''context'' (map Str context))))))"

record result_bundle =
  dataset :: "string table"
  annotation_info :: "cell table"
  missed_annotations :: "string option table"
  binary_dataset :: "cell table"

definition tables ::
  "string list \<Rightarrow> string list list \<Rightarrow> counter \<Rightarrow> na_log \<Rightarrow> py_error + result_bundle" where
  "tables csv_header csv_rows ac nal =
     sbind (annotation_info_rows ac) (\<lambda>(info_header, info_rows).
     sbind (missing_annotations_of nal) (\<lambda>missing_annotations.
     sbind (data_frame [] csv_rows csv_header) (\<lambda>df.
     sbind (one_hot df) (\<lambda>df_encoded.
     sbind (data_frame [] csv_rows csv_header) (\<lambda>dataset_df.
     sbind (data_frame NoValue info_rows info_header) (\<lambda>info_df.
     sbind (head_and_rest missing_annotations) (\<lambda>(missing_header, missing_rows).
     sbind (data_frame None (map (map Some) missing_rows) missing_header) (\<lambda>missed_df.
       Inr \<lparr>dataset = dataset_df, annotation_info = info_df,
            missed_annotations = missed_df, binary_dataset = df_encoded\<rparr>))))))))"

text \<open>Lines 435 to 443: the unknown categories, once each, in sorted order.\<close>

definition unknown_report :: "string list \<Rightarrow> log_event list" where
  "unknown_report unk_categories =
     (if length unk_categories > 0
      then [WarningUnknownHeader]
             @ map (\<lambda>(idx, c). WarningUnknown idx c) (enumerate 0 (sort (remdups unk_categories)))
      else [])"

subsection \<open>The whole function\<close>

definition counting_passes ::
  "env \<Rightarrow> (nat \<Rightarrow> bool) \<Rightarrow> (string, string list) dict \<Rightarrow> string list
     \<Rightarrow> counter \<Rightarrow> (counter \<times> na_log) run" where
  "counting_passes E stop corpus_dict speakers ac0 =
     (let corpus = concat (dict_values corpus_dict);
          sois = map py_strip speakers;
          whole_corpus = py_join [CHR 0x0A] corpus
      in bind (whole_corpus_pass E stop whole_corpus sois ac0) (\<lambda>ac1.
         bind (coverage_report ac1 whole_corpus) (\<lambda>_.
         bind (per_file_pass E stop sois corpus_dict ac1) (\<lambda>nal.
         bind (per_speaker_pass E stop sois corpus speakers ac1) (\<lambda>ac2.
         bind (total_pass stop sois ac2) (\<lambda>ac3.
           ret (ac3, nal)))))))"

definition assemble ::
  "env \<Rightarrow> options \<Rightarrow> (nat \<Rightarrow> bool) \<Rightarrow> (string, string list) dict
     \<Rightarrow> (string, string list) dict \<Rightarrow> string list \<Rightarrow> (string, string) dict
     \<Rightarrow> counter \<Rightarrow> result_bundle run" where
  "assemble E opts stop corpus_dict speakers_variables csv_header idv ac0 =
     bind (counting_passes E stop corpus_dict (keys speakers_variables) ac0) (\<lambda>(ac, nal).
     bind (emit InfoMainLoop) (\<lambda>_.
     bind (main_loop E opts stop csv_header idv speakers_variables (keys ac)
             (speakers_of_interest speakers_variables) (all_speakers_dict E corpus_dict)
             corpus_dict) (\<lambda>(csv_rows, unk_categories).
     bind (lift (tables csv_header csv_rows ac nal)) (\<lambda>to_return.
     bind (emit_all (unknown_report unk_categories)) (\<lambda>_.
       ret to_return)))))"

definition count_annotations ::
  "env \<Rightarrow> (string, string list) dict \<Rightarrow> counter run" where
  "count_annotations E corpus_dict =
     (case validation_pass E corpus_dict of
        (annotations, err_msg) \<Rightarrow>
          bind (if py_strip err_msg \<noteq> [] then emit (ErrorAnnotations (py_strip err_msg))
                else ret ()) (\<lambda>_.
          bind (emit (InfoUniqueAnnotations (length (initial_counter annotations)))) (\<lambda>_.
            ret (initial_counter annotations))))"

definition generate_dataset ::
  "env \<Rightarrow> options \<Rightarrow> (nat \<Rightarrow> bool) \<Rightarrow> (string, string) dict \<Rightarrow> (string, string list) dict
     \<Rightarrow> (string, var_value) dict \<Rightarrow> (string, var_value) dict \<Rightarrow> result_bundle run" where
  "generate_dataset E opts stop raw_corpus speakers_variables independent_variables
      dependent_variables =
     (let corpus_dict = preprocess_all E raw_corpus;
          corpus = concat (dict_values corpus_dict);
          sois = speakers_of_interest speakers_variables;
          idv = inverse_index (dict_merge independent_variables dependent_variables);
          csv_header = csv_header_of independent_variables dependent_variables
                         (previous_line opts)
      in bind (emit InfoStarting) (\<lambda>_.
         if length corpus = 0 then bind (emit ErrorEmptyCorpus) (\<lambda>_. raise ValueError)
         else
         bind (emit (InfoSpeakersOfInterest sois)) (\<lambda>_.
         bind (emit_all (speakers_report sois (map (get_name E) corpus))) (\<lambda>_.
         bind (emit_all (duplicate_warning independent_variables dependent_variables)) (\<lambda>_.
         bind (checkpoint stop) (\<lambda>_.
         bind (count_annotations E corpus_dict) (\<lambda>ac0.
           assemble E opts stop corpus_dict speakers_variables csv_header idv ac0)))))))"

section \<open>\<open>DCThread.run\<close>\<close>

text \<open>
  \<open>self.results\<close> after \<open>run\<close>: the returned dictionary, \<open>None\<close> when the function
  returned \<open>None\<close>, or the error message built from the caught exception.
\<close>

datatype results = ResultsNone | ResultsBundle result_bundle | ResultsMessage py_error

definition initial_state :: run_state where
  "initial_state = \<lparr>polls = 0, log = []\<rparr>"

definition DCThread_run ::
  "env \<Rightarrow> options \<Rightarrow> (nat \<Rightarrow> bool) \<Rightarrow> (string, string) dict \<Rightarrow> (string, string list) dict
     \<Rightarrow> (string, var_value) dict \<Rightarrow> (string, var_value) dict \<Rightarrow> results" where
  "DCThread_run E opts stop corpus_dict speakers independent_variables dependent_variables =
     (case fst (generate_dataset E opts stop corpus_dict speakers independent_variables
                  dependent_variables initial_state) of
        Returned r \<Rightarrow> ResultsBundle r
      | Cancelled \<Rightarrow> ResultsNone
      | Raised e \<Rightarrow> ResultsMessage e)"

section \<open>An instance of the collaborators\<close>

text \<open>
  For runs on concrete corpora the parameters are instantiated by simple functions
  that follow the spec's description of the components: a paragraph is a line, the
  speaker's name is the text before the first colon, a feature tag is written
  \<open><category.token>\<close>, a tag is valid when it has a category component, an occurrence
  of a token is annotated when it ends a tag.
\<close>

definition ex_get_name :: "string \<Rightarrow> string" where
  "ex_get_name p = (if CHR '':'' \<in> set p then takeWhile (\<lambda>c. c \<noteq> CHR '':'') p else [])"

definition ex_preprocess_corpus :: "string \<Rightarrow> string \<Rightarrow> string list" where
  "ex_preprocess_corpus text k = filter (\<lambda>p. CHR '':'' \<in> set p) (py_split (CHR 0x0A) text)"

fun ex_scan :: "nat \<Rightarrow> (nat \<times> string) option \<Rightarrow> string \<Rightarrow> (nat \<times> string \<times> string) list" where
  "ex_scan i opened [] = []"
| "ex_scan i None (c # cs) =
     (if c = CHR ''<'' then ex_scan (Suc i) (Some (i, [])) cs else ex_scan (Suc i) None cs)"
| "ex_scan i (Some (start, inner)) (c # cs) =
     (if c = CHR ''>'' then (start, ''<'' @ inner @ ''>'', inner) # ex_scan (Suc i) None cs
      else ex_scan (Suc i) (Some (start, inner @ [c])) cs)"

definition ex_finditer :: "string \<Rightarrow> (nat \<times> string \<times> string) list" where
  "ex_finditer s = ex_scan 0 None s"

definition ex_check_correct_annotations ::
  "(nat \<times> string \<times> string) list \<Rightarrow> string \<Rightarrow> string \<Rightarrow> string list \<times> string" where
  "ex_check_correct_annotations anns crp pt =
     (let valid = filter (\<lambda>t. CHR ''.'' \<in> set t) (map (\<lambda>(i, g0, g1). g1) anns)
      in (valid, if length valid = length anns then [] else ''malformed tags in '' @ pt))"

fun count_occurrences :: "string \<Rightarrow> string \<Rightarrow> int" where
  "count_occurrences t [] = 0"
| "count_occurrences t (c # cs) =
     (if is_prefix t (c # cs) then 1 else 0) + count_occurrences t cs"

definition ex_wild :: "string \<Rightarrow> string \<Rightarrow> int" where
  "ex_wild token text =
     count_occurrences token text - count_occurrences (''.'' @ token @ ''>'') text"

definition ex_find_repetitions ::
  "string \<Rightarrow> string \<Rightarrow> string list \<Rightarrow> bool \<Rightarrow> int \<times> int \<times> int \<times> string list" where
  "ex_find_repetitions corpus token sois check_annotated =
     (let paragraphs = py_split (CHR 0x0A) corpus;
          of_interest = filter (\<lambda>p. ex_get_name p \<in> set sois) paragraphs
      in (ex_wild token corpus,
          sum_list (map (ex_wild token) of_interest),
          count_occurrences (''.'' @ token @ ''>'') corpus,
          if check_annotated then []
          else filter (\<lambda>p. ex_wild token p > 0) paragraphs))"

text \<open>Exclusion spans are written \<open>[...]\<close>; a span that holds a tag is a wrong fragment.\<close>

fun ex_spans :: "string option \<Rightarrow> string \<Rightarrow> string \<times> string list" where
  "ex_spans opened [] = ([], [])"
| "ex_spans None (c # cs) =
     (if c = CHR ''['' then ex_spans (Some []) cs
      else (case ex_spans None cs of (clean, spans) \<Rightarrow> (c # clean, spans)))"
| "ex_spans (Some inner) (c # cs) =
     (if c = CHR '']'' then (case ex_spans None cs of (clean, spans) \<Rightarrow> (clean, inner # spans))
      else ex_spans (Some (inner @ [c])) cs)"

definition ex_remove_features :: "string \<Rightarrow> string \<times> string list" where
  "ex_remove_features c =
     (case ex_spans None c of
        (clean, spans) \<Rightarrow> (clean, filter (\<lambda>sp. CHR ''<'' \<in> set sp) spans))"

definition ex_get_ngram :: "string \<Rightarrow> int \<times> int \<Rightarrow> nat \<Rightarrow> string" where
  "ex_get_ngram c = (\<lambda>(ngram_prev, ngram_next) index.
     (let left = py_split CHR '' '' (take index c);
          right = py_split CHR '' '' (drop index c)
      in py_join '' '' (drop (length left - nat ngram_prev) left @ take (nat ngram_next) right)))"

definition ex_env :: env where
  "ex_env = \<lparr>preprocess_corpus = ex_preprocess_corpus, get_name = ex_get_name,
             finditer = ex_finditer, check_correct_annotations = ex_check_correct_annotations,
             find_repetitions = ex_find_repetitions, remove_features = ex_remove_features,
             get_ngram = ex_get_ngram\<rparr>"

definition ex_options :: options where
  "ex_options = \<lparr>previous_line = True, ngram_prev = 2, ngram_next = 2\<rparr>"

definition never :: "nat \<Rightarrow> bool" where
  "never k = False"

text \<open>The cell of the returned statistics table in the row of a token, under a label.\<close>

definition stat_cell :: "results \<Rightarrow> string \<Rightarrow> string \<Rightarrow> cell option" where
  "stat_cell r token label =
     (case r of
        ResultsBundle b \<Rightarrow>
          (case (filter (\<lambda>row. take 1 row = [Str token]) (data (annotation_info b)),
                 list_index (columns (annotation_info b)) label) of
             (row # _, Inr i) \<Rightarrow> (if i < length row then Some (row ! i) else None)
           | _ \<Rightarrow> None)
      | _ \<Rightarrow> None)"

definition ex_variables :: "(string, var_value) dict" where
  "ex_variables = [(''animal'', Multi [''feline'', ''canine''])]"

definition ex_corpus :: "(string, string) dict" where
  "ex_corpus = [(''f1'', ''JOHN: I like <feline.cats>'' @ [CHR 0x0A] @ ''JOHN: cats too'')]"

section \<open>Notions used in the results\<close>

text \<open>
  A run has heard nothing when every question to the stop flag so far was answered
  with no; a computation keeps that when it ends without cancelling.
\<close>

definition quiet :: "(nat \<Rightarrow> bool) \<Rightarrow> run_state \<Rightarrow> bool" where
  "quiet stop s = (\<forall>k < polls s. \<not> stop k)"

definition unheard :: "(nat \<Rightarrow> bool) \<Rightarrow> 'a run \<Rightarrow> bool" where
  "unheard stop m =
     (\<forall>s r s'. m s = (r, s') \<longrightarrow> quiet stop s \<longrightarrow> r \<noteq> Cancelled \<longrightarrow> quiet stop s')"

text \<open>Every value that a computation returns satisfies \<open>P\<close>.\<close>

definition post :: "('a \<Rightarrow> bool) \<Rightarrow> 'a run \<Rightarrow> bool" where
  "post P m = (\<forall>s a s'. m s = (Returned a, s') \<longrightarrow> P a)"





text \<open>The values that a variable lists, and the last category of a dictionary that lists a value.\<close>

definition values_of :: "var_value \<Rightarrow> string list" where
  "values_of v = (case v of Multi vs \<Rightarrow> vs | Single x \<Rightarrow> [x])"

definition last_category :: "(string, var_value) dict \<Rightarrow> string \<Rightarrow> string option" where
  "last_category variable_dict x =
     (case filter (\<lambda>(token, v). x \<in> set (values_of v)) variable_dict of
        [] \<Rightarrow> None
      | c # cs \<Rightarrow> Some (fst (last (c # cs))))"





text \<open>
  A row of the statistics in which \<open>total\<close> is the sum of \<open>annotated\<close> and
  \<open>not annotated\<close>, and the same for the row of a token in the counter.
\<close>

definition sums_up :: "(string, int) dict \<Rightarrow> bool" where
  "sums_up row =
     (case (map_of row ''annotated'', map_of row ''not annotated'', map_of row ''total'') of
        (Some a, Some n, Some t) \<Rightarrow> t = a + n
      | _ \<Rightarrow> False)"

definition sums_up_at :: "counter \<Rightarrow> string \<Rightarrow> bool" where
  "sums_up_at ac token = (case map_of ac token of None \<Rightarrow> True | Some row \<Rightarrow> sums_up row)"

section \<open>Results about the counting passes\<close>

text \<open>
  C1. The per-speaker pass computes the counters \<open>{s} annotated\<close> and
  \<open>{s} not annotated\<close> from the paragraphs of speaker \<open>s\<close>, and these values should
  be the ones in the returned statistics table. On the corpus with the two paragraphs
  \<open>JOHN: I like <feline.cats>\<close> and \<open>JOHN: cats too\<close> and the speaker of interest
  \<open>JOHN\<close>, the pass finds one annotated and one not annotated occurrence of
  \<open>cats\<close> in JOHN's paragraphs, but the returned table holds 0 in both columns:
  lines 275 to 277 store 0 under both keys after the pass.
\<close>

theorem C1_per_speaker_counters_lost:
  "find_repetitions ex_env
     (speaker_corpus ex_env [''JOHN: I like <feline.cats>'', ''JOHN: cats too''] ''JOHN'')
     ''cats'' [''JOHN''] True = (1, 1, 1, [])
   \<and> stat_cell (DCThread_run ex_env ex_options never ex_corpus [(''JOHN'', [])] [] ex_variables)
         ''cats'' ''JOHN annotated'' = Some (Num 0)
   \<and> stat_cell (DCThread_run ex_env ex_options never ex_corpus [(''JOHN'', [])] [] ex_variables)
         ''cats'' ''JOHN not annotated'' = Some (Num 0)"
  by code_simp

text \<open>
  C2. In the returned statistics table \<open>total\<close> should be the sum of \<open>annotated\<close>
  and \<open>not annotated\<close>. For a speaker of interest named \<open>not\<close> the key
  \<open>speaker + " annotated"\<close> is the key \<open>not annotated\<close>: the per-speaker pass
  stores the speaker's annotated count there, line 271 adds it into \<open>total\<close>, and
  line 276 then stores 0 under it. The run returns annotated 1, not annotated 0,
  total 2.
\<close>

theorem C2_total_differs_from_sum:
  "stat_cell (DCThread_run ex_env ex_options never
       [(''f1'', ''not: I like <feline.cats>'' @ [CHR 0x0A] @ ''not: cats too'')]
       [(''not'', [])] [] ex_variables) ''cats'' ''annotated'' = Some (Num 1)
   \<and> stat_cell (DCThread_run ex_env ex_options never
       [(''f1'', ''not: I like <feline.cats>'' @ [CHR 0x0A] @ ''not: cats too'')]
       [(''not'', [])] [] ex_variables) ''cats'' ''not annotated'' = Some (Num 0)
   \<and> stat_cell (DCThread_run ex_env ex_options never
       [(''f1'', ''not: I like <feline.cats>'' @ [CHR 0x0A] @ ''not: cats too'')]
       [(''not'', [])] [] ex_variables) ''cats'' ''total'' = Some (Num 2)"
  by code_simp

text \<open>
  C3. The coverage line should report zero when the summed \<open>not annotated\<close> count is
  zero. On a corpus whose only occurrence of \<open>cats\<close> is annotated the sum is zero,
  the division of line 197 raises \<open>ZeroDivisionError\<close>, and the run ends with the
  error message.
\<close>

theorem C3_zero_not_annotated_raises:
  "DCThread_run ex_env ex_options never [(''f1'', ''JOHN: I like <feline.cats>'')]
     [(''JOHN'', [])] [] ex_variables = ResultsMessage ZeroDivisionError"
  by code_simp

section \<open>Results about the main loop\<close>

text \<open>
  C4. A match whose last component is not an annotated token, and a match whose text
  lies in a wrong fragment, should be skipped with a warning, the run going on to
  return its tables. Both skips call \<open>logger.waring\<close>, which the logger does not
  have: the run ends with the \<open>AttributeError\<close>. The first corpus has the tag
  \<open><dogs>\<close>, which the validation rejects; the second has the tag
  \<open><feline.cats>\<close> inside an exclusion span.
\<close>

theorem C4_skip_raises_attribute_error:
  "DCThread_run ex_env ex_options never
     [(''f1'', ''JOHN: I like <feline.cats> and <dogs>'' @ [CHR 0x0A] @ ''JOHN: cats too'')]
     [(''JOHN'', [])] [] ex_variables = ResultsMessage AttributeError
   \<and> DCThread_run ex_env ex_options never
     [(''f1'', ''JOHN: I like [um <feline.cats>] them'' @ [CHR 0x0A] @ ''JOHN: cats too'')]
     [(''JOHN'', [])] [] ex_variables = ResultsMessage AttributeError"
  by code_simp

section \<open>Results about the stop flag\<close>

lemma unheard_ret: "unheard stop (ret a)"
  by (simp add: unheard_def ret_def)

lemma unheard_raise: "unheard stop (raise e)"
  by (simp add: unheard_def raise_def)

lemma unheard_lift: "unheard stop (lift r)"
  by (cases r) (simp_all add: lift_def unheard_ret unheard_raise)

lemma unheard_emit: "unheard stop (emit ev)"
  by (simp add: unheard_def emit_def quiet_def)

lemma unheard_emit_all: "unheard stop (emit_all evs)"
  by (simp add: unheard_def emit_all_def quiet_def)

lemma unheard_logger_call: "unheard stop (logger_call name ev)"
  by (simp add: logger_call_def unheard_emit unheard_raise)

lemma unheard_checkpoint: "unheard stop (checkpoint stop)"
  by (auto simp: unheard_def checkpoint_def quiet_def less_Suc_eq split: if_splits)

lemma unheard_bind:
  assumes first: "unheard stop m" and rest: "\<And>a. unheard stop (f a)"
  shows "unheard stop (bind m f)"
  unfolding unheard_def
proof (intro allI impI)
  fix s r s'
  assume run: "bind m f s = (r, s')" and q: "quiet stop s" and r: "r \<noteq> Cancelled"
  obtain r1 s1 where step: "m s = (r1, s1)" by (cases "m s")
  from first step q have q1: "r1 \<noteq> Cancelled \<Longrightarrow> quiet stop s1"
    unfolding unheard_def by blast
  show "quiet stop s'"
  proof (cases r1)
    case (Returned a)
    with run step have "f a s1 = (r, s')" by (simp add: bind_def)
    with rest [of a] q1 Returned r show ?thesis unfolding unheard_def by blast
  next
    case (Raised e)
    with run step have "s' = s1" by (simp add: bind_def)
    with q1 Raised show ?thesis by simp
  next
    case Cancelled
    with run step r show ?thesis by (simp add: bind_def)
  qed
qed

lemma unheard_for_loop:
  assumes "\<And>x acc. unheard stop (body x acc)"
  shows "unheard stop (for_loop body xs acc)"
proof (induction xs arbitrary: acc)
  case Nil
  show ?case by (simp add: unheard_def)
next
  case (Cons x xs)
  have "for_loop body (x # xs) acc = bind (body x acc) (\<lambda>acc'. for_loop body xs acc')"
    by (rule ext) (simp add: bind_def split: prod.splits outcome.splits)
  then show ?case using assms Cons.IH by (simp add: unheard_bind)
qed

lemma unheard_if: "unheard stop m1 \<Longrightarrow> unheard stop m2 \<Longrightarrow> unheard stop (if c then m1 else m2)"
  by simp

lemma unheard_case_prod: "(\<And>a b. unheard stop (f a b)) \<Longrightarrow> unheard stop (case p of (a, b) \<Rightarrow> f a b)"
  by (cases p) simp

lemma unheard_case_prod_fun: "(\<And>a b. unheard stop (f a b x)) \<Longrightarrow> unheard stop ((case p of (a, b) \<Rightarrow> f a b) x)"
  by (cases p) simp

lemma unheard_case_prod_fun2: "(\<And>a b. unheard stop (f a b x y)) \<Longrightarrow> unheard stop ((case p of (a, b) \<Rightarrow> f a b) x y)"
  by (cases p) simp

lemmas unheard_intros = unheard_ret unheard_raise unheard_lift unheard_emit unheard_emit_all
  unheard_logger_call unheard_checkpoint unheard_bind unheard_for_loop unheard_if
  unheard_case_prod unheard_case_prod_fun unheard_case_prod_fun2

lemma unheard_whole_corpus_pass: "unheard stop (whole_corpus_pass E stop wc sois ac)"
  unfolding whole_corpus_pass_def whole_corpus_body_def
  by (intro unheard_intros)

lemma unheard_coverage_report: "unheard stop (coverage_report ac wc)"
  unfolding coverage_report_def by (intro unheard_intros)

lemma unheard_per_file_pass: "unheard stop (per_file_pass E stop sois cd ac)"
  unfolding per_file_pass_def per_file_body_def per_file_token_body_def Let_def
  by (intro unheard_intros)

lemma unheard_per_speaker_pass: "unheard stop (per_speaker_pass E stop sois corpus sps ac)"
  unfolding per_speaker_pass_def per_speaker_body_def per_speaker_token_body_def
  by (intro unheard_intros)

lemma unheard_total_pass: "unheard stop (total_pass stop sois ac)"
  unfolding total_pass_def total_body_def total_speaker_body_def
  by (intro unheard_intros)

lemma unheard_counting_passes: "unheard stop (counting_passes E stop cd sps ac)"
  unfolding counting_passes_def Let_def
  by (intro unheard_intros unheard_whole_corpus_pass unheard_coverage_report
      unheard_per_file_pass unheard_per_speaker_pass unheard_total_pass)

lemma unheard_main_loop: "unheard stop (main_loop E opts stop h idv sv toks sois sd cd)"
  unfolding main_loop_def file_body_def paragraph_body_def tag_body_def Let_def
  by (intro unheard_intros)

lemma unheard_assemble: "unheard stop (assemble E opts stop cd sv h idv ac0)"
  unfolding assemble_def
  by (intro unheard_intros unheard_counting_passes unheard_main_loop)

lemma unheard_count_annotations: "unheard stop (count_annotations E cd)"
  unfolding count_annotations_def
  by (intro unheard_intros)

lemma unheard_generate_dataset: "unheard stop (generate_dataset E opts stop rc sv ind dep)"
  unfolding generate_dataset_def Let_def
  by (intro unheard_intros unheard_assemble unheard_count_annotations)


text \<open>
  C8. A run in which some question to the stop flag was answered with yes (the
  \<open>k\<close>-th of the questions the run asked) returns exactly \<open>None\<close>:
  \<open>self.results\<close> is \<open>None\<close>, which is neither the dictionary of the four
  tables nor an error message, so no partial dataset is returned.
\<close>

theorem C8_cancelled_run_returns_sentinel:
  assumes "k < polls (snd (generate_dataset E opts stop rc sv ind dep initial_state))" and "stop k"
  shows "fst (generate_dataset E opts stop rc sv ind dep initial_state) = Cancelled
     \<and> DCThread_run E opts stop rc sv ind dep = ResultsNone
     \<and> (\<forall>b. DCThread_run E opts stop rc sv ind dep \<noteq> ResultsBundle b)
     \<and> (\<forall>e. DCThread_run E opts stop rc sv ind dep \<noteq> ResultsMessage e)"
proof -
  obtain r s where run: "generate_dataset E opts stop rc sv ind dep initial_state = (r, s)"
    by (cases "generate_dataset E opts stop rc sv ind dep initial_state")
  have "quiet stop initial_state" by (simp add: quiet_def initial_state_def)
  with unheard_generate_dataset [of stop E opts rc sv ind dep] run
  have "r \<noteq> Cancelled \<Longrightarrow> quiet stop s" by (auto simp: unheard_def)
  with assms run have "r = Cancelled" by (auto simp: quiet_def)
  with run show ?thesis by (simp add: DCThread_run_def)
qed

theorem C8_cancelled_run_returns_sentinel_witness:
  "2 < polls (snd (generate_dataset ex_env ex_options (\<lambda>k. k = 2) ex_corpus [(''JOHN'', [])] []
                    ex_variables initial_state))
   \<and> DCThread_run ex_env ex_options (\<lambda>k. k = 2) ex_corpus [(''JOHN'', [])] [] ex_variables
       = ResultsNone"
proof -
  have asked: "2 < polls (snd (generate_dataset ex_env ex_options (\<lambda>k. k = 2) ex_corpus
                                [(''JOHN'', [])] [] ex_variables initial_state))"
    by code_simp
  have yes: "(2::nat) = 2" by simp
  from C8_cancelled_run_returns_sentinel [of 2 ex_env ex_options "\<lambda>k. k = 2", OF asked yes] asked
  show ?thesis by simp
qed

section \<open>Results about the rows\<close>

lemma post_ret: "P a \<Longrightarrow> post P (ret a)"
  by (simp add: post_def ret_def)

lemma post_raise: "post P (raise e)"
  by (simp add: post_def raise_def)

lemma post_lift: "(\<And>a. r = Inr a \<Longrightarrow> P a) \<Longrightarrow> post P (lift r)"
  by (cases r) (simp_all add: lift_def post_ret post_raise)

lemma post_bind:
  assumes "post Q m" and "\<And>a. Q a \<Longrightarrow> post P (f a)"
  shows "post P (bind m f)"
  unfolding post_def
proof (intro allI impI)
  fix s b s'
  assume run: "bind m f s = (Returned b, s')"
  obtain r1 s1 where step: "m s = (r1, s1)" by (cases "m s")
  with run obtain a where a: "r1 = Returned a" and rest: "f a s1 = (Returned b, s')"
    by (cases r1) (simp_all add: bind_def)
  from assms(1) step a have "Q a" unfolding post_def by blast
  with assms(2) rest show "P b" unfolding post_def by blast
qed

lemma post_any: "post (\<lambda>_. True) m"
  by (simp add: post_def)


lemma post_for_loop:
  assumes "I acc" and "\<And>x a. x \<in> set xs \<Longrightarrow> I a \<Longrightarrow> post I (body x a)"
  shows "post I (for_loop body xs acc)"
  using assms
proof (induction xs arbitrary: acc)
  case Nil
  then show ?case by (simp add: post_def)
next
  case (Cons x xs)
  have eq: "for_loop body (x # xs) acc = bind (body x acc) (\<lambda>acc'. for_loop body xs acc')"
    by (rule ext) (simp add: bind_def split: prod.splits outcome.splits)
  show ?case unfolding eq
  proof (rule post_bind)
    show "post I (body x acc)" using Cons.prems by simp
  next
    fix a assume "I a"
    then show "post I (for_loop body xs a)" using Cons.IH Cons.prems(2) by simp
  qed
qed















section \<open>Results about the missing-annotation table\<close>

lemma post_bind_any: "(\<And>a. post P (f a)) \<Longrightarrow> post P (bind m f)"
  by (rule post_bind [where Q = "\<lambda>_. True"]) (simp_all add: post_any)

lemma post_bind_lift: "(\<And>a. r = Inr a \<Longrightarrow> post P (f a)) \<Longrightarrow> post P (bind (lift r) f)"
  by (rule post_bind [where Q = "\<lambda>a. r = Inr a"]) (simp_all add: post_lift)


lemma post_bind_checkpoint: "(\<And>u. post P (f u)) \<Longrightarrow> post P (bind (checkpoint stop) f)"
  by (rule post_bind_any)




































section \<open>Results about the variable dictionaries\<close>

lemma map_of_setitem: "map_of (setitem d k v) = (map_of d)(k \<mapsto> v)"
  by (induction d) (auto simp: fun_eq_iff)

lemma map_of_fold_setitem:
  "map_of (fold (\<lambda>i d. setitem d i token) vs d) x
     = (if x \<in> set vs then Some token else map_of d x)"
  by (induction vs arbitrary: d) (auto simp: map_of_setitem)

lemma map_of_idv_step:
  "map_of (idv_step (token, v) idv) x
     = (if x \<in> set (values_of v) then Some token else map_of idv x)"
  by (cases v) (simp_all add: idv_step_def values_of_def map_of_setitem map_of_fold_setitem)

lemma last_category_Nil: "last_category [] x = None"
  by (simp add: last_category_def)

lemma last_category_Cons:
  "last_category ((token, v) # vd) x
     = (case last_category vd x of
          Some c \<Rightarrow> Some c
        | None \<Rightarrow> if x \<in> set (values_of v) then Some token else None)"
  by (simp add: last_category_def split: list.splits)

lemma map_of_fold_idv_step:
  "map_of (fold idv_step vd idv) x
     = (case last_category vd x of Some c \<Rightarrow> Some c | None \<Rightarrow> map_of idv x)"
proof (induction vd arbitrary: idv)
  case Nil
  show ?case by (simp add: last_category_Nil)
next
  case (Cons p vd)
  obtain token v where p: "p = (token, v)" by (cases p)
  show ?case
    unfolding p by (simp add: Cons.IH last_category_Cons map_of_idv_step split: option.splits)
qed

lemma map_of_inverse_index: "map_of (inverse_index vd) x = last_category vd x"
  by (simp add: inverse_index_def map_of_fold_idv_step split: option.splits)

lemma keys_Nil: "keys [] = []"
  by (simp add: keys_def)

lemma keys_Cons: "keys ((k, v) # d) = k # keys d"
  by (simp add: keys_def)

lemma keys_setitem:
  "keys (setitem d k v) = (if k \<in> set (keys d) then keys d else keys d @ [k])"
  by (induction d k v rule: setitem.induct) (simp_all add: keys_Nil keys_Cons)

lemma keys_dict_merge:
  "distinct (keys b) \<Longrightarrow> keys (dict_merge a b) = keys a @ filter (\<lambda>k. k \<notin> set (keys a)) (keys b)"
  unfolding dict_merge_def
proof (induction b arbitrary: a)
  case Nil
  show ?case by (simp add: keys_Nil)
next
  case (Cons p b)
  obtain k v where p: "p = (k, v)" by (cases p)
  from Cons.prems p have k: "k \<notin> set (keys b)" and d: "distinct (keys b)"
    by (simp_all add: keys_Cons)
  have same: "filter (\<lambda>x. x \<noteq> k \<and> x \<notin> set (keys a)) (keys b)
                = filter (\<lambda>x. x \<notin> set (keys a)) (keys b)"
    using k by (intro filter_cong) auto
  have step: "keys (fold (\<lambda>(k, v) d. setitem d k v) b (setitem a k v))
                = keys (setitem a k v) @ filter (\<lambda>x. x \<notin> set (keys (setitem a k v))) (keys b)"
    by (rule Cons.IH [OF d])
  show ?case
  proof (cases "k \<in> set (keys a)")
    case True
    with step show ?thesis unfolding p by (simp add: keys_setitem keys_Cons)
  next
    case False
    with step same show ?thesis unfolding p by (simp add: keys_setitem keys_Cons)
  qed
qed

lemma length_filter_eq: "(length (filter P xs) = length xs) = (\<forall>x \<in> set xs. P x)"
proof -
  have "length (filter P xs) + length (filter (\<lambda>x. \<not> P x) xs) = length xs"
    by (rule sum_length_filter_compl)
  then have "(length (filter P xs) = length xs) = (filter (\<lambda>x. \<not> P x) xs = [])"
    by auto
  then show ?thesis by (simp add: filter_empty_conv)
qed

lemma length_dict_merge:
  assumes "distinct (keys b)"
  shows "(length (dict_merge a b) = length a + length b) = (set (keys a) \<inter> set (keys b) = {})"
proof -
  have "length (dict_merge a b) = length (keys (dict_merge a b))" by (simp add: keys_def)
  also have "\<dots> = length a + length (filter (\<lambda>k. k \<notin> set (keys a)) (keys b))"
    by (simp add: keys_dict_merge [OF assms]) (simp add: keys_def)
  finally have "(length (dict_merge a b) = length a + length b)
      = (length (filter (\<lambda>k. k \<notin> set (keys a)) (keys b)) = length (keys b))"
    by (simp add: keys_def)
  then show ?thesis by (auto simp: length_filter_eq)
qed

text \<open>
  C5 as the spec states it: a token value listed under more than one category is
  mapped to the category seen first, and every such duplicate is reported as a
  warning. With \<open>m\<close> listed under \<open>gender\<close> in the independent and under
  \<open>animal\<close> in the dependent variables, the categories listing \<open>m\<close> are
  \<open>gender\<close> and then \<open>animal\<close>, the inverse index maps \<open>m\<close> to \<open>animal\<close>,
  and no warning is logged.
\<close>

theorem C5_first_category_counterexample:
  "getitem (inverse_index (dict_merge [(''gender'', Multi [''m'', ''f''])]
                                       [(''animal'', Multi [''m'', ''x''])])) ''m''
     = Inr ''animal''
   \<and> map fst (filter (\<lambda>(token, v). ''m'' \<in> set (values_of v))
                 (dict_merge [(''gender'', Multi [''m'', ''f''])]
                             [(''animal'', Multi [''m'', ''x''])]))
     = [''gender'', ''animal'']
   \<and> duplicate_warning [(''gender'', Multi [''m'', ''f''])] [(''animal'', Multi [''m'', ''x''])]
     = []"
  by code_simp

text \<open>
  C5, amended. The inverse index maps every value to the category that lists it last
  in the merged dictionary (a later category overwrites an earlier one), and the
  duplicate warning is logged exactly when some category name occurs in both the
  independent and the dependent dictionary; a value shared by categories of different
  names is not reported.
\<close>

theorem C5_last_category_wins:
  assumes "distinct (keys dependent_variables)"
  shows "map_of (inverse_index (dict_merge independent_variables dependent_variables)) x
           = last_category (dict_merge independent_variables dependent_variables) x
       \<and> (duplicate_warning independent_variables dependent_variables = [])
           = (set (keys independent_variables) \<inter> set (keys dependent_variables) = {})"
  using length_dict_merge [OF assms, of independent_variables]
  by (simp add: map_of_inverse_index duplicate_warning_def Let_def)

theorem C5_last_category_wins_witness:
  "distinct (keys [(''animal'', Multi [''m'', ''x''])])
   \<and> map_of (inverse_index (dict_merge [(''gender'', Multi [''m'', ''f''])]
                                        [(''animal'', Multi [''m'', ''x''])])) ''m''
       = Some ''animal''
   \<and> duplicate_warning [(''gender'', Multi [''m'', ''f''])] [(''animal'', Multi [''m'', ''x''])]
       = []"
proof -
  have d: "distinct (keys [(''animal'', Multi [''m'', ''x''])])" by (simp add: keys_def)
  have l: "last_category (dict_merge [(''gender'', Multi [''m'', ''f''])]
                                      [(''animal'', Multi [''m'', ''x''])]) ''m'' = Some ''animal''"
    by code_simp
  have k: "set (keys [(''gender'', Multi [''m'', ''f''])])
             \<inter> set (keys [(''animal'', Multi [''m'', ''x''])]) = {}"
    by (simp add: keys_def)
  from C5_last_category_wins [OF d, of "[(''gender'', Multi [''m'', ''f''])]" "''m''"] d l k
  show ?thesis by simp
qed

section \<open>Results about the category columns\<close>






lemma not_key_map_of: "k \<notin> set (keys d) \<Longrightarrow> map_of d k = None"
  by (simp add: keys_def map_of_eq_None_iff)















section \<open>Results about the one-hot encoding\<close>


















section \<open>Results about the totals\<close>

text \<open>
  Lines 270 to 277 leave \<open>total\<close> equal to the sum of \<open>annotated\<close> and
  \<open>not annotated\<close> in every row when no speaker of interest is named \<open>not\<close>:
  no key \<open>speaker + " annotated"\<close> or \<open>speaker + " not annotated"\<close> is then
  one of the three keys.
\<close>

lemma set2_Inr:
  assumes "set2 ac token key v = Inr ac'"
  obtains row where "map_of ac token = Some row"
    and "ac' = setitem ac token (setitem row key v)"
  using assms by (auto simp: set2_def getitem_def sbind_def split: option.splits)

lemma get2_Inr:
  assumes "get2 ac token key = Inr v"
  obtains row where "map_of ac token = Some row" and "map_of row key = Some v"
  using assms by (auto simp: get2_def getitem_def sbind_def split: option.splits)

lemma speaker_key_annotated:
  "speaker \<noteq> ''not'' \<Longrightarrow>
     speaker @ '' annotated'' \<noteq> ''annotated'' \<and> speaker @ '' annotated'' \<noteq> ''not annotated''
     \<and> speaker @ '' annotated'' \<noteq> ''total''"
proof (intro conjI notI)
  assume "speaker @ '' annotated'' = ''annotated''"
  then have "length (speaker @ '' annotated'') = length ''annotated''" by simp
  then show False by simp
next
  assume a: "speaker \<noteq> ''not''" and "speaker @ '' annotated'' = ''not annotated''"
  then have "speaker @ '' annotated'' = ''not'' @ '' annotated''" by simp
  with a show False by (simp only: append_same_eq)
next
  assume "speaker @ '' annotated'' = ''total''"
  then have "length (speaker @ '' annotated'') = length ''total''" by simp
  then show False by simp
qed

lemma speaker_key_not_annotated:
  "speaker @ '' not annotated'' \<noteq> ''annotated'' \<and> speaker @ '' not annotated'' \<noteq> ''not annotated''
     \<and> speaker @ '' not annotated'' \<noteq> ''total''"
proof (intro conjI notI)
  assume "speaker @ '' not annotated'' = ''annotated''"
  then have "length (speaker @ '' not annotated'') = length ''annotated''" by simp
  then show False by simp
next
  assume "speaker @ '' not annotated'' = ''not annotated''"
  then have "length (speaker @ '' not annotated'') = length ''not annotated''" by simp
  then show False by simp
next
  assume "speaker @ '' not annotated'' = ''total''"
  then have "length (speaker @ '' not annotated'') = length ''total''" by simp
  then show False by simp
qed

lemma sums_up_other_key:
  assumes "sums_up row" and "key \<noteq> ''annotated''" and "key \<noteq> ''not annotated''"
    and "key \<noteq> ''total''"
  shows "sums_up (setitem row key v)"
  using assms by (simp add: sums_up_def map_of_setitem)

lemma set2_sums_up:
  assumes "set2 ac token key v = Inr ac'" and "sums_up_at ac t"
    and "key \<noteq> ''annotated''" and "key \<noteq> ''not annotated''" and "key \<noteq> ''total''"
  shows "sums_up_at ac' t"
proof -
  from assms(1) obtain row where row: "map_of ac token = Some row"
    and ac': "ac' = setitem ac token (setitem row key v)"
    by (rule set2_Inr)
  show ?thesis
  proof (cases "t = token")
    case True
    with assms(2) row have "sums_up row" by (simp add: sums_up_at_def)
    from sums_up_other_key [OF this assms(3,4,5)] True show ?thesis
      by (simp add: sums_up_at_def ac' map_of_setitem)
  next
    case False
    with assms(2) show ?thesis by (simp add: sums_up_at_def ac' map_of_setitem)
  qed
qed

lemma total_speaker_body_sums_up:
  assumes "speaker \<noteq> ''not''" and "sums_up_at ac t"
  shows "post (\<lambda>ac'. sums_up_at ac' t) (total_speaker_body stop token speaker ac)"
  unfolding total_speaker_body_def
proof (intro post_bind_lift post_bind_checkpoint post_ret)
  fix ac1 ac2 :: counter and u :: unit
  assume 1: "set2 ac token (speaker @ '' annotated'') 0 = Inr ac1"
    and 2: "set2 ac1 token (speaker @ '' not annotated'') 0 = Inr ac2"
  from speaker_key_annotated [OF assms(1)] set2_sums_up [OF 1 assms(2)]
  have "sums_up_at ac1 t" by simp
  with speaker_key_not_annotated [of speaker] set2_sums_up [OF 2]
  show "sums_up_at ac2 t" by simp
qed

lemma total_body_sums_up:
  assumes "''not'' \<notin> set sois" and "t \<noteq> token \<Longrightarrow> sums_up_at ac t"
  shows "post (\<lambda>ac'. sums_up_at ac' t) (total_body stop sois token ac)"
  unfolding total_body_def
proof (intro post_bind_lift)
  fix a n :: int and ac1 :: counter
  assume a: "get2 ac token ''annotated'' = Inr a"
    and n: "get2 ac token ''not annotated'' = Inr n"
    and s: "set2 ac token ''total'' (a + n) = Inr ac1"
  from a obtain row where row: "map_of ac token = Some row" and ra: "map_of row ''annotated'' = Some a"
    by (rule get2_Inr)
  from n row have rn: "map_of row ''not annotated'' = Some n"
    by (auto elim: get2_Inr)
  from s row have ac1: "ac1 = setitem ac token (setitem row ''total'' (a + n))"
    by (auto elim: set2_Inr)
  have start: "sums_up_at ac1 t"
  proof (cases "t = token")
    case True
    with ra rn show ?thesis by (simp add: sums_up_at_def sums_up_def ac1 map_of_setitem)
  next
    case False
    with assms(2) show ?thesis by (simp add: sums_up_at_def ac1 map_of_setitem)
  qed
  show "post (\<lambda>ac'. sums_up_at ac' t) (for_loop (total_speaker_body stop token) sois ac1)"
  proof (rule post_for_loop [where I = "\<lambda>ac'. sums_up_at ac' t"])
    show "sums_up_at ac1 t" by (rule start)
  next
    fix speaker and acc :: counter
    assume "speaker \<in> set sois" and "sums_up_at acc t"
    with assms(1) show "post (\<lambda>ac'. sums_up_at ac' t) (total_speaker_body stop token speaker acc)"
      by (intro total_speaker_body_sums_up) auto
  qed
qed

lemma for_loop_total_body:
  assumes "''not'' \<notin> set sois"
    and "for_loop (total_body stop sois) tokens ac s = (Returned ac', s')"
    and "\<And>t. t \<notin> set tokens \<Longrightarrow> sums_up_at ac t"
  shows "sums_up_at ac' t"
  using assms(2,3)
proof (induction tokens arbitrary: ac s)
  case Nil
  then show ?case by simp
next
  case (Cons token tokens)
  from Cons.prems(1) obtain ac1 s1 where
    one: "total_body stop sois token ac s = (Returned ac1, s1)"
    and rest: "for_loop (total_body stop sois) tokens ac1 s1 = (Returned ac', s')"
    by (auto split: prod.splits outcome.splits)
  have "sums_up_at ac1 u" if "u \<notin> set tokens" for u
  proof -
    have "post (\<lambda>ac'. sums_up_at ac' u) (total_body stop sois token ac)"
      using that Cons.prems(2) [of u] by (intro total_body_sums_up assms(1)) auto
    with one show ?thesis unfolding post_def by blast
  qed
  from Cons.IH [OF rest this] show ?case by simp
qed

lemma total_pass_sums_up:
  assumes "''not'' \<notin> set sois" and "total_pass stop sois ac s = (Returned ac', s')"
    and "map_of ac' token = Some row"
  shows "sums_up row"
proof -
  have "sums_up_at ac t" if "t \<notin> set (keys ac)" for t
    using that by (simp add: sums_up_at_def not_key_map_of)
  from for_loop_total_body [OF assms(1) assms(2) [unfolded total_pass_def] this, of token] assms(3)
  show ?thesis by (simp add: sums_up_at_def)
qed

end
